theory Spec2Isabelle
  imports Main "HOL-Library.Word"
begin

unbundle bit_operations_syntax

section \<open>Machine values\<close>

text \<open>
  \<^verbatim>\<open>VSRTL_VT_U\<close> is the unsigned value type every port and memory access uses. Its
  declaration (\<^verbatim>\<open>vsrtl_defines.h\<close>) is not among the sources; the signal classes convert
  to \<^verbatim>\<open>unsigned int\<close> and the specification fixes the native word at 4 bytes, so it is
  taken as a 32-bit word here. \<^verbatim>\<open>sizeof(VSRTL_VT_U)\<close> is then 4.
\<close>

type_synonym VSRTL_VT_U = "32 word"

definition sizeof_VSRTL_VT_U :: int where
  "sizeof_VSRTL_VT_U = 4"

section \<open>AddressSpace\<close>

text \<open>
  Modelled from the spec: the class \<^verbatim>\<open>AddressSpace\<close> (\<^verbatim>\<open>vsrtl_addressspace.h\<close>) with its
  operations \<^verbatim>\<open>readMem\<close> and \<^verbatim>\<open>writeMem\<close> is missing from the sources. The specification
  describes a byte-addressable, sparse byte storage with \<^verbatim>\<open>readMem(addr) -> value\<close> and
  \<^verbatim>\<open>writeMem(addr, value, widthBytes)\<close>, where an access is confined to the requested byte
  span and a write of width 0 does nothing. The storage is the function from byte address to
  byte; \<^verbatim>\<open>writeMem\<close> stores the \<open>widthBytes\<close> low-order bytes of the value at consecutive
  addresses from \<open>addr\<close> on, least significant byte first (the specification's scenario
  writes 0x11 with width 1 and reads it back as 0x11), and \<^verbatim>\<open>readMem\<close> assembles the native
  word of 4 bytes found from \<open>addr\<close> on. Addresses wrap around at 32 bits. Regions only
  classify addresses and do not take part in an access, so they are left out.
\<close>

type_synonym AddressSpace = "VSRTL_VT_U \<Rightarrow> 8 word"

fun writeBytes :: "AddressSpace \<Rightarrow> VSRTL_VT_U \<Rightarrow> VSRTL_VT_U \<Rightarrow> nat \<Rightarrow> AddressSpace" where
  "writeBytes m address v 0 = m"
| "writeBytes m address v (Suc n) =
     writeBytes (m(address := ucast v)) (address + 1) (drop_bit 8 v) n"

definition writeMem :: "AddressSpace \<Rightarrow> VSRTL_VT_U \<Rightarrow> VSRTL_VT_U \<Rightarrow> int \<Rightarrow> AddressSpace" where
  "writeMem m address v sz = writeBytes m address v (nat sz)"

definition readMem :: "AddressSpace \<Rightarrow> VSRTL_VT_U \<Rightarrow> VSRTL_VT_U" where
  "readMem m address =
     ucast (m address)
       OR push_bit 8 (ucast (m (address + 1)))
       OR push_bit 16 (ucast (m (address + 2)))
       OR push_bit 24 (ucast (m (address + 3)))"

section \<open>BaseMemory\<close>

text \<open>
  \<^verbatim>\<open>BaseMemory<addrWidth, dataWidth, byteIndexed>\<close>: the template argument \<open>byteIndexed\<close> is
  the first argument of \<open>read\<close> and \<open>write'\<close> (\<^verbatim>\<open>write\<close> is an Isar keyword,
  hence the prime); the address space that \<^verbatim>\<open>m_memory\<close> points
  to is the second. The memory claims are about a memory whose \<^verbatim>\<open>setMemory\<close> has been
  called, so the pointer is not null. The parameter \<^verbatim>\<open>size\<close> is an \<^verbatim>\<open>int\<close>; a caller that
  passes the unsigned value of a port or of a record converts it, which is \<open>sint\<close>.
\<close>

definition read :: "bool \<Rightarrow> AddressSpace \<Rightarrow> VSRTL_VT_U \<Rightarrow> VSRTL_VT_U" where
  "read byteIndexed m address =
     readMem m (if byteIndexed then address else push_bit 2 address)"

definition write' :: "bool \<Rightarrow> AddressSpace \<Rightarrow> VSRTL_VT_U \<Rightarrow> VSRTL_VT_U \<Rightarrow> int \<Rightarrow> AddressSpace" where
  "write' byteIndexed m address v sz =
     writeMem m (if byteIndexed then address else push_bit 2 address) v sz"

section \<open>WrMemory\<close>

text \<open>
  The undo record. The fields \<^verbatim>\<open>addr\<close>, \<^verbatim>\<open>data\<close> and \<^verbatim>\<open>width\<close> of the source carry the
  prefix \<open>ev_\<close> here, since \<^verbatim>\<open>addr\<close> is also the name of an input port.
\<close>

record MemoryEviction =
  writeEnable :: bool
  ev_addr :: VSRTL_VT_U
  ev_data :: VSRTL_VT_U
  ev_width :: VSRTL_VT_U

text \<open>
  The four input ports of a \<^verbatim>\<open>WrMemory\<close> as \<^verbatim>\<open>save()\<close> reads them:
  \<^verbatim>\<open>static_cast<bool>(wr_en)\<close> and the \<^verbatim>\<open>uValue()\<close> of the other three. The width of a
  port bounds its value (\<^verbatim>\<open>wr_width\<close> has \<^verbatim>\<open>ceillog2(dataWidth / 8 + 1)\<close> bits, three for a
  32-bit memory); the record admits every value of the value type.
\<close>

record Ports =
  wr_en :: bool
  addr :: VSRTL_VT_U
  data_in :: VSRTL_VT_U
  wr_width :: VSRTL_VT_U

text \<open>
  The state of a \<^verbatim>\<open>WrMemory\<close>: the address space it points to and its deque of undo records,
  front first. \<^verbatim>\<open>reverseStackSize()\<close> belongs to \<^verbatim>\<open>ClockedComponent\<close>, which is not among
  the sources; the configured capacity is the argument \<open>K\<close> of the operations that ask
  for it.
\<close>

record WrMemory =
  m_memory :: AddressSpace
  m_reverseStack :: "MemoryEviction list"

definition saveToStack :: "nat \<Rightarrow> MemoryEviction \<Rightarrow> WrMemory \<Rightarrow> WrMemory" where
  "saveToStack K v s =
     (let pushed = v # m_reverseStack s
      in s\<lparr>m_reverseStack := (if length pushed > K then butlast pushed else pushed)\<rparr>)"

definition save :: "bool \<Rightarrow> nat \<Rightarrow> Ports \<Rightarrow> WrMemory \<Rightarrow> WrMemory" where
  "save byteIndexed K p s =
     (let writeEnable_v = wr_en p;
          addr_v = addr p;
          data_in_v = data_in p;
          data_out_v = read byteIndexed (m_memory s) addr_v;
          ev = \<lparr>writeEnable = writeEnable_v, ev_addr = addr_v, ev_data = data_out_v,
                ev_width = wr_width p\<rparr>;
          s1 = saveToStack K ev s
      in if writeEnable_v
         then s1\<lparr>m_memory := write' byteIndexed (m_memory s1) addr_v data_in_v (sint (wr_width p))\<rparr>
         else s1)"

definition reverse :: "bool \<Rightarrow> WrMemory \<Rightarrow> WrMemory" where
  "reverse byteIndexed s =
     (if length (m_reverseStack s) > 0
      then (let lastEviction = hd (m_reverseStack s);
                s1 = (if writeEnable lastEviction
                      then s\<lparr>m_memory := write' byteIndexed (m_memory s) (ev_addr lastEviction)
                                            (ev_data lastEviction) (sint (ev_width lastEviction))\<rparr>
                      else s)
            in s1\<lparr>m_reverseStack := tl (m_reverseStack s1)\<rparr>)
      else s)"

definition reset :: "WrMemory \<Rightarrow> WrMemory" where
  "reset s = s\<lparr>m_reverseStack := []\<rparr>"

definition forceValue :: "bool \<Rightarrow> VSRTL_VT_U \<Rightarrow> VSRTL_VT_U \<Rightarrow> WrMemory \<Rightarrow> WrMemory" where
  "forceValue byteIndexed address v s =
     s\<lparr>m_memory := write' byteIndexed (m_memory s) address v sizeof_VSRTL_VT_U\<rparr>"

text \<open>
  \<^verbatim>\<open>std::deque::resize(count)\<close>: the first \<open>count\<close> elements are kept, and a longer deque
  is filled up with value-initialised records.
\<close>

definition value_initialized_eviction :: MemoryEviction where
  "value_initialized_eviction =
     \<lparr>writeEnable = False, ev_addr = 0, ev_data = 0, ev_width = 0\<rparr>"

definition deque_resize :: "nat \<Rightarrow> MemoryEviction list \<Rightarrow> MemoryEviction list" where
  "deque_resize count xs =
     (if count \<le> length xs then take count xs
      else xs @ replicate (count - length xs) value_initialized_eviction)"

text \<open>
  \<^verbatim>\<open>reverseStackSizeChanged()\<close> runs after the configured capacity has been set to \<open>K\<close>.
\<close>

definition reverseStackSizeChanged :: "nat \<Rightarrow> WrMemory \<Rightarrow> WrMemory" where
  "reverseStackSizeChanged K s =
     (if K < length (m_reverseStack s)
      then s\<lparr>m_reverseStack := deque_resize (length (m_reverseStack s)) (m_reverseStack s)\<rparr>
      else s)"

section \<open>Signals\<close>

text \<open>
  Signals and components live on a heap and are referred to by address. A connection is made
  from a C++ reference, so an address stored in an input signal is the address of a live
  object; the one pointer that can be null is the \<^verbatim>\<open>OutputSignal*\<close> an input signal is
  constructed with. \<^verbatim>\<open>Component\<close> is only declared in the sources: what is used of it is
  its \<^verbatim>\<open>getName()\<close>, the \<open>componentName\<close> of the heap.
\<close>

type_synonym Component_ptr = nat
type_synonym OutputSignal_ptr = nat
type_synonym InputSignal_ptr = nat

record OutputSignal =
  out_name :: string
  out_parent :: Component_ptr
  m_value :: "bool list"

text \<open>
  \<^verbatim>\<open>std::variant<OutputSignal<bitwidth>*, InputSignal<bitwidth>*>\<close>; \<open>OutputRef None\<close> is the
  null \<^verbatim>\<open>OutputSignal*\<close>.
\<close>

datatype m_signal_variant = OutputRef "OutputSignal_ptr option" | InputRef InputSignal_ptr

record InputSignal =
  in_name :: string
  in_parent :: Component_ptr
  m_signal :: m_signal_variant

record Heap =
  outputs :: "OutputSignal_ptr \<Rightarrow> OutputSignal"
  inputs :: "InputSignal_ptr \<Rightarrow> InputSignal"
  componentName :: "Component_ptr \<Rightarrow> string"

text \<open>
  A member call through the null pointer is \<open>NullDereference\<close>. \<^verbatim>\<open>assert(false)\<close> ends the
  program (assertions enabled); \<open>AssertionFailed\<close> carries the text written to
  \<^verbatim>\<open>std::cout\<close> before it.
\<close>

datatype error = NullDereference | AssertionFailed string

text \<open>The constructor: "Initially an input signal is connected to a null Signal".\<close>

definition new_InputSignal :: "Component_ptr \<Rightarrow> string \<Rightarrow> InputSignal" where
  "new_InputSignal parent name =
     \<lparr>in_name = name, in_parent = parent, m_signal = OutputRef None\<rparr>"

text \<open>
  \<^verbatim>\<open>OutputSignal::value<T>()\<close> is \<^verbatim>\<open>static_cast<T>(*this)\<close>, one of three conversions of
  \<^verbatim>\<open>m_value\<close> whose helpers (\<^verbatim>\<open>accBVec\<close>, \<^verbatim>\<open>signextend\<close>) are not among the sources. The
  conversion for \<open>T\<close> is the argument \<open>cast\<close>.
\<close>

definition OutputSignal_value :: "(bool list \<Rightarrow> 'v) \<Rightarrow> OutputSignal \<Rightarrow> 'v" where
  "OutputSignal_value cast out = cast (m_value out)"

text \<open>
  \<^verbatim>\<open>InputSignal::value<T>()\<close> and \<^verbatim>\<open>isConnected()\<close> call themselves on the input signal they
  refer to. Input signals can be connected in a cycle (each \<^verbatim>\<open>connect\<close> only looks at its
  own variant), and then neither call returns: the result \<open>None\<close>.
  (\<^verbatim>\<open>value\<close> is an Isar keyword, hence the prime.)
\<close>

partial_function (option) value' ::
  "(bool list \<Rightarrow> 'v) \<Rightarrow> Heap \<Rightarrow> InputSignal_ptr \<Rightarrow> (error + 'v) option" where
  "value' cast h this =
     (case m_signal (inputs h this) of
        OutputRef arg \<Rightarrow>
          (case arg of
             None \<Rightarrow> Some (Inl NullDereference)
           | Some p \<Rightarrow> Some (Inr (OutputSignal_value cast (outputs h p))))
      | InputRef arg \<Rightarrow> value' cast h arg)"

partial_function (option) isConnected :: "Heap \<Rightarrow> InputSignal_ptr \<Rightarrow> bool option" where
  "isConnected h this =
     (case m_signal (inputs h this) of
        OutputRef arg \<Rightarrow> Some (arg \<noteq> None)
      | InputRef arg \<Rightarrow> isConnected h arg)"

definition getConnectedParent :: "Heap \<Rightarrow> InputSignal_ptr \<Rightarrow> error + Component_ptr" where
  "getConnectedParent h this =
     (case m_signal (inputs h this) of
        OutputRef arg \<Rightarrow>
          (case arg of
             None \<Rightarrow> Inl NullDereference
           | Some p \<Rightarrow> Inr (out_parent (outputs h p)))
      | InputRef arg \<Rightarrow> Inr (in_parent (inputs h arg)))"

text \<open>The characters \<^verbatim>\<open>\n\<close>, \<^verbatim>\<open>\t\<close> and \<^verbatim>\<open>'\<close> of the message.\<close>

definition nl :: char where "nl = CHR 0x0A"
definition tab :: char where "tab = CHR 0x09"
definition quote :: char where "quote = CHR 0x27"

definition verifyIsNotConnected :: "Heap \<Rightarrow> InputSignal_ptr \<Rightarrow> error + unit" where
  "verifyIsNotConnected h this =
     (let isConnected_v =
            (case m_signal (inputs h this) of
               OutputRef arg \<Rightarrow> arg \<noteq> None
             | InputRef arg \<Rightarrow> True)
      in if isConnected_v
         then (let err = ''ERROR! trying to connect an input which has already been connected.'' @ [nl];
                   err = err @ ''Signal: '' @ [tab, tab, quote];
                   err = err @ in_name (inputs h this);
                   err = err @ [quote, nl] @ ''Of component: '' @ [tab, quote];
                   err = err @ componentName h (in_parent (inputs h this));
                   err = err @ [quote, nl] @ ''Is already connected to '' @ [nl]
                           @ ''Signal: '' @ [tab, tab, quote]
               in case (case m_signal (inputs h this) of
                          OutputRef arg \<Rightarrow>
                            (case arg of
                               None \<Rightarrow> Inl NullDereference
                             | Some p \<Rightarrow>
                                 (case getConnectedParent h this of
                                    Inl e \<Rightarrow> Inl e
                                  | Inr c \<Rightarrow> Inr (out_name (outputs h p), componentName h c)))
                        | InputRef arg \<Rightarrow>
                            Inr (in_name (inputs h arg),
                                 componentName h (in_parent (inputs h this))))
                  of Inl e \<Rightarrow> Inl e
                   | Inr (toThisSignal, toThisComponent) \<Rightarrow>
                       Inl (AssertionFailed
                              (err @ toThisSignal @ [quote, nl] @ ''Of component: '' @ [tab, quote]
                                 @ toThisComponent @ [quote, nl])))
         else Inr ())"

text \<open>
  The two overloads of \<^verbatim>\<open>connect\<close>. The result is paired with the heap as the call leaves
  it.
\<close>

definition connect_InputSignal ::
  "InputSignal_ptr \<Rightarrow> InputSignal_ptr \<Rightarrow> Heap \<Rightarrow> (error + unit) \<times> Heap" where
  "connect_InputSignal this otherInput h =
     (case verifyIsNotConnected h this of
        Inl e \<Rightarrow> (Inl e, h)
      | Inr _ \<Rightarrow>
          (Inr (), h\<lparr>inputs := (inputs h)(this := (inputs h this)\<lparr>m_signal := InputRef otherInput\<rparr>)\<rparr>))"

definition connect_OutputSignal ::
  "InputSignal_ptr \<Rightarrow> OutputSignal_ptr \<Rightarrow> Heap \<Rightarrow> (error + unit) \<times> Heap" where
  "connect_OutputSignal this output h =
     (case verifyIsNotConnected h this of
        Inl e \<Rightarrow> (Inl e, h)
      | Inr _ \<Rightarrow>
          (Inr (), h\<lparr>inputs := (inputs h)(this := (inputs h this)\<lparr>m_signal := OutputRef (Some output)\<rparr>)\<rparr>))"

text \<open>
  \<open>chain h this js p\<close>: the input signal \<open>this\<close> refers to the input signal \<open>js ! 0\<close>,
  that one to \<open>js ! 1\<close> and so on, and the last of them (or \<open>this\<close> itself when \<open>js\<close> is
  empty) refers to the output signal \<open>p\<close>.
\<close>

fun chain :: "Heap \<Rightarrow> InputSignal_ptr \<Rightarrow> InputSignal_ptr list \<Rightarrow> OutputSignal_ptr \<Rightarrow> bool" where
  "chain h this [] p = (m_signal (inputs h this) = OutputRef (Some p))"
| "chain h this (j # js) p = (m_signal (inputs h this) = InputRef j \<and> chain h j js p)"

section \<open>Concrete memories and designs\<close>

definition zeroed :: AddressSpace where
  "zeroed = (\<lambda>_. 0)"

text \<open>
  A design of three components: component 1 owns the output signal 0, component 2 the input
  signal 0 that is connected to it, component 3 the input signal 1 that passes input signal 0
  through; every other input signal is as constructed.
\<close>

definition design :: Heap where
  "design =
     \<lparr>outputs = (\<lambda>_. \<lparr>out_name = ''out'', out_parent = 1, m_value = [True, False]\<rparr>),
      inputs = (\<lambda>i. if i = 0 then \<lparr>in_name = ''in'', in_parent = 2, m_signal = OutputRef (Some 0)\<rparr>
                     else if i = 1 then \<lparr>in_name = ''pass'', in_parent = 3, m_signal = InputRef 0\<rparr>
                     else new_InputSignal 4 ''free''),
      componentName = (\<lambda>c. if c = 1 then ''alu'' else if c = 2 then ''reg'' else ''top'')\<rparr>"

section \<open>Memory accesses\<close>

lemma unat_diff_self_succ: "unat ((a::32 word) - (a + 1)) = 4294967295"
  by (simp add: unsigned_minus_1_eq_mask mask_eq_exp_minus_1)

lemma unat_diff_succ:
  assumes "(x::32 word) \<noteq> a"
  shows "unat (x - a) = Suc (unat (x - (a + 1)))"
proof -
  from assms have nz: "x - a \<noteq> 0" by simp
  have "unat (x - a - 1) = unat (x - a) - 1"
    using nz by (rule unat_minus_one)
  moreover have "x - a - 1 = x - (a + 1)" by (rule diff_diff_eq)
  moreover have "0 < unat (x - a)" using nz by (simp add: unat_gt_0)
  ultimately show ?thesis by simp
qed

text \<open>
  What a write of \<open>n\<close> bytes leaves at the address \<open>x\<close>: byte number \<open>x - a\<close> of the value
  when \<open>x\<close> is one of the \<open>n\<close> addresses from \<open>a\<close> on, the old byte otherwise.
\<close>

lemma writeBytes_apply:
  "n \<le> 4294967296 \<Longrightarrow>
   writeBytes m a v n x =
     (if unat (x - a) < n then ucast (drop_bit (8 * unat (x - a)) v) else m x)"
proof (induction n arbitrary: m a v)
  case 0
  then show ?case by simp
next
  case (Suc n)
  have n: "n \<le> 4294967296" and n': "n < 4294967296" using Suc.prems by simp_all
  note IH = Suc.IH [OF n, of "m(a := ucast v)" "a + 1" "drop_bit 8 v"]
  show ?case
  proof (cases "x = a")
    case True
    have "\<not> unat (x - (a + 1)) < n" using True n' by (simp only: unat_diff_self_succ)
    then have "writeBytes (m(a := ucast v)) (a + 1) (drop_bit 8 v) n x = (m(a := ucast v)) x"
      by (simp only: IH if_False)
    then show ?thesis using True by simp
  next
    case False
    note u = unat_diff_succ [OF False]
    have "drop_bit (8 * unat (x - (a + 1))) (drop_bit 8 v) = drop_bit (8 * unat (x - a)) v"
      by (simp add: u add.commute)
    moreover have "unat (x - (a + 1)) < n \<longleftrightarrow> unat (x - a) < Suc n"
      by (simp add: u)
    moreover have "(m(a := ucast v)) x = m x" using False by simp
    ultimately have "writeBytes (m(a := ucast v)) (a + 1) (drop_bit 8 v) n x =
        (if unat (x - a) < Suc n then ucast (drop_bit (8 * unat (x - a)) v) else m x)"
      by (simp only: IH)
    then show ?thesis by simp
  qed
qed

lemma writeBytes_numeral:
  "writeBytes m a v (numeral k) =
     writeBytes (m(a := ucast v)) (a + 1) (drop_bit 8 v) (pred_numeral k)"
  by (simp add: numeral_eq_Suc)

lemma readMem_byte0: "(ucast (readMem m a) :: 8 word) = m a"
  by (simp add: readMem_def bit_eq_iff bit_simps)

lemma readMem_byte1: "(ucast (drop_bit 8 (readMem m a)) :: 8 word) = m (a + 1)"
  by (auto simp add: readMem_def bit_eq_iff bit_simps dest: bit_imp_le_length)

lemma readMem_byte2: "(ucast (drop_bit 16 (readMem m a)) :: 8 word) = m (a + 2)"
  by (auto simp add: readMem_def bit_eq_iff bit_simps dest: bit_imp_le_length)

lemma readMem_byte3: "(ucast (drop_bit 24 (readMem m a)) :: 8 word) = m (a + 3)"
  by (auto simp add: readMem_def bit_eq_iff bit_simps dest: bit_imp_le_length)

lemma readMem_byte:
  assumes "k < 4"
  shows "(ucast (drop_bit (8 * k) (readMem m a)) :: 8 word) = m (a + of_nat k)"
proof -
  from assms consider "k = 0" | "k = 1" | "k = 2" | "k = 3" by linarith
  then show ?thesis
  proof cases
    case 1 then show ?thesis by (simp add: readMem_byte0)
  next
    case 2 then show ?thesis by (simp add: readMem_byte1)
  next
    case 3 then show ?thesis by (simp add: readMem_byte2)
  next
    case 4 then show ?thesis by (simp add: readMem_byte3)
  qed
qed

text \<open>
  Writing back the word read before a write of at most four bytes undoes the write.
\<close>

lemma writeBytes_restore:
  assumes "n \<le> 4"
  shows "writeBytes (writeBytes m a v n) a (readMem m a) n = m"
proof
  fix x
  have n: "n \<le> 4294967296" using assms by simp
  show "writeBytes (writeBytes m a v n) a (readMem m a) n x = m x"
  proof (cases "unat (x - a) < n")
    case True
    then have k: "unat (x - a) < 4" using assms by simp
    have "a + of_nat (unat (x - a)) = x" by simp
    then have "(ucast (drop_bit (8 * unat (x - a)) (readMem m a)) :: 8 word) = m x"
      using readMem_byte [OF k, of m a] by simp
    then show ?thesis using True by (simp add: writeBytes_apply [OF n])
  next
    case False
    then show ?thesis by (simp add: writeBytes_apply [OF n])
  qed
qed

lemma small_width:
  assumes "(w::32 word) \<le> 4"
  shows "nat (sint w) \<le> 4"
proof -
  from assms have u: "uint w \<le> 4" by (simp add: word_le_def)
  have nn: "0 \<le> uint w" by (rule uint_ge_0)
  have "- (2 ^ 31) \<le> uint w" by (rule order_trans [OF _ nn]) simp
  moreover have "uint w < 2 ^ 31" using u by simp
  ultimately have "signed_take_bit 31 (uint w) = uint w" by (rule signed_take_bit_int_eq_self)
  then have "sint w = uint w" by (simp add: sint_uint)
  moreover have "unat w \<le> 4" using assms by (simp add: word_le_nat_alt)
  ultimately show ?thesis by simp
qed

text \<open>
  C9: a byte-indexed memory hands the address \<open>a\<close> on to the address space as it is, for
  \<open>read\<close> and for \<open>write'\<close>; a word-indexed memory hands on \<open>a\<close> shifted left by two bits,
  which is \<open>a * 4\<close> in 32-bit arithmetic. The mode is the template argument of the memory
  component; the address space has no such setting.
\<close>

theorem indexing_mode:
  "read True m a = readMem m a
   \<and> write' True m a v sz = writeMem m a v sz
   \<and> read False m a = readMem m (push_bit 2 a)
   \<and> write' False m a v sz = writeMem m (push_bit 2 a) v sz
   \<and> push_bit 2 a = a * 4"
  by (simp add: read_def write'_def push_bit_eq_mult)

section \<open>The reverse stack\<close>

lemma saveToStack_memory: "m_memory (saveToStack K v s) = m_memory s"
  by (simp add: saveToStack_def Let_def)

text \<open>
  The record a \<open>save\<close> pushes stays at the front unless the capacity is 0 and the stack was
  empty: only then is the record dropped from the back the one just pushed.
\<close>

lemma saveToStack_front:
  assumes "0 < K \<or> m_reverseStack s \<noteq> []"
  shows "m_reverseStack (saveToStack K v s) =
           v # (if K \<le> length (m_reverseStack s) then butlast (m_reverseStack s)
                else m_reverseStack s)"
  using assms by (auto simp add: saveToStack_def Let_def)

lemma saveToStack_evicts_pushed:
  "m_reverseStack (saveToStack 0 v (s\<lparr>m_reverseStack := []\<rparr>)) = []"
  by (simp add: saveToStack_def Let_def)

lemma save_stack:
  "m_reverseStack (save byteIndexed K p s) =
     m_reverseStack (saveToStack K
       \<lparr>writeEnable = wr_en p, ev_addr = addr p,
        ev_data = read byteIndexed (m_memory s) (addr p), ev_width = wr_width p\<rparr> s)"
  by (simp add: save_def Let_def)

lemma save_memory:
  "m_memory (save byteIndexed K p s) =
     (if wr_en p
      then write' byteIndexed (m_memory s) (addr p) (data_in p) (sint (wr_width p))
      else m_memory s)"
  by (simp add: save_def Let_def saveToStack_memory)

text \<open>
  The record pushed by \<open>save\<close> is at the front of the stack afterwards exactly when the
  capacity is positive or the stack was not empty. Otherwise the record is pushed onto the
  empty stack and dropped from its back at once.
\<close>

lemma pushed_record_kept_iff:
  "(\<exists>rest. m_reverseStack (save byteIndexed K p s) =
       \<lparr>writeEnable = wr_en p, ev_addr = addr p,
        ev_data = read byteIndexed (m_memory s) (addr p), ev_width = wr_width p\<rparr> # rest)
   \<longleftrightarrow> 0 < K \<or> m_reverseStack s \<noteq> []"
proof (cases "0 < K \<or> m_reverseStack s \<noteq> []")
  case True
  then show ?thesis by (simp add: save_stack saveToStack_front [OF True])
next
  case False
  then show ?thesis by (simp add: save_stack saveToStack_def Let_def)
qed

section \<open>One edge and its undo\<close>

text \<open>
  C1 (amended): when the edge does not write, or writes at most the four bytes of the word
  that \<open>save\<close> captures, and the record pushed by \<open>save\<close> is not the one dropped (the
  capacity is positive or the stack was not empty), \<open>save\<close> followed by \<open>reverse\<close> leaves
  the address space as it was before \<open>save\<close>, so every \<open>read\<close> returns what it returned
  before, in both indexing modes, for every address, data word and earlier history.
\<close>

theorem save_reverse_round_trip:
  assumes w: "wr_en p \<longrightarrow> wr_width p \<le> 4"
      and k: "0 < K \<or> m_reverseStack s \<noteq> []"
  shows "m_memory (reverse byteIndexed (save byteIndexed K p s)) = m_memory s
       \<and> (\<forall>a. read byteIndexed (m_memory (reverse byteIndexed (save byteIndexed K p s))) a
              = read byteIndexed (m_memory s) a)"
proof -
  have "m_memory (reverse byteIndexed (save byteIndexed K p s)) = m_memory s"
  proof (cases "wr_en p")
    case False
    then show ?thesis
      by (simp add: save_def reverse_def Let_def saveToStack_front [OF k] saveToStack_memory)
  next
    case True
    then have "nat (sint (wr_width p)) \<le> 4" using w by (simp add: small_width)
    then show ?thesis using True
      by (simp add: save_def reverse_def Let_def saveToStack_front [OF k] saveToStack_memory
            write'_def read_def writeMem_def writeBytes_restore)
  qed
  then show ?thesis by simp
qed

text \<open>
  The specification's scenario: over a zeroed address space, an edge writes 0x11 at 0x1000
  with width 1; the read at 0x1000 then returns 0x11, and 0 again after one \<open>reverse\<close>.
\<close>

theorem save_reverse_round_trip_witness:
  "(1 :: 32 word) \<le> 4 \<and> (0::nat) < 1
   \<and> read True (m_memory (save True 1
         \<lparr>wr_en = True, addr = 0x1000, data_in = 0x11, wr_width = 1\<rparr>
         \<lparr>m_memory = zeroed, m_reverseStack = []\<rparr>)) 0x1000 = 0x11
   \<and> read True (m_memory (reverse True (save True 1
         \<lparr>wr_en = True, addr = 0x1000, data_in = 0x11, wr_width = 1\<rparr>
         \<lparr>m_memory = zeroed, m_reverseStack = []\<rparr>))) 0x1000 = 0"
proof -
  have w: "wr_en \<lparr>wr_en = True, addr = 0x1000, data_in = 0x11, wr_width = 1 :: 32 word\<rparr>
        \<longrightarrow> wr_width \<lparr>wr_en = True, addr = 0x1000 :: 32 word, data_in = 0x11 :: 32 word,
                       wr_width = 1 :: 32 word\<rparr> \<le> 4"
    by simp
  have k: "(0::nat) < 1 \<or> m_reverseStack \<lparr>m_memory = zeroed, m_reverseStack = []\<rparr> \<noteq> []"
    by simp
  have "read True (m_memory (reverse True (save True 1
         \<lparr>wr_en = True, addr = 0x1000, data_in = 0x11, wr_width = 1\<rparr>
         \<lparr>m_memory = zeroed, m_reverseStack = []\<rparr>))) 0x1000
      = read True zeroed 0x1000"
    using save_reverse_round_trip [OF w k, of True] by simp
  moreover have "read True zeroed 0x1000 = 0"
    by (simp add: read_def readMem_def zeroed_def)
  moreover have "read True (m_memory (save True 1
         \<lparr>wr_en = True, addr = 0x1000, data_in = 0x11, wr_width = 1\<rparr>
         \<lparr>m_memory = zeroed, m_reverseStack = []\<rparr>)) 0x1000 = 0x11"
    by (simp add: save_def saveToStack_def write'_def writeMem_def read_def readMem_def
        zeroed_def Let_def)
  ultimately show ?thesis by simp
qed

text \<open>
  C1 as stated fails for a write wider than the captured word. \<^verbatim>\<open>wr_width\<close> is a three-bit
  port on a 32-bit memory and can carry 5. With the byte 0xAA at address 4, an edge that
  writes five bytes at address 0 clears that byte; the record holds the four bytes read at
  address 0, and \<open>reverse\<close> writes five bytes again, the fifth being 0. The capacity is 1, so
  the record is not evicted.
\<close>

theorem wide_write_not_restored:
  "(0::nat) < 1
   \<and> read True (m_memory \<lparr>m_memory = zeroed(4 := 0xAA), m_reverseStack = []\<rparr>) 4 = 0xAA
   \<and> read True (m_memory (reverse True (save True 1
         \<lparr>wr_en = True, addr = 0, data_in = 0x11, wr_width = 5\<rparr>
         \<lparr>m_memory = zeroed(4 := 0xAA), m_reverseStack = []\<rparr>))) 4 = 0
   \<and> read True (m_memory (reverse True (save True 1
         \<lparr>wr_en = True, addr = 0, data_in = 0x11, wr_width = 5\<rparr>
         \<lparr>m_memory = zeroed(4 := 0xAA), m_reverseStack = []\<rparr>))) 4
     \<noteq> read True (m_memory \<lparr>m_memory = zeroed(4 := 0xAA), m_reverseStack = []\<rparr>) 4"
  by (simp add: save_def reverse_def saveToStack_def write'_def writeMem_def read_def readMem_def
        zeroed_def Let_def writeBytes_numeral)

section \<open>The capacity of the reverse stack\<close>

lemma saveToStack_bounded:
  assumes "length (m_reverseStack s) \<le> K"
  shows "m_reverseStack (saveToStack K v s) = take K (v # m_reverseStack s)"
proof (cases "length (m_reverseStack s) = K")
  case True
  then have "butlast (v # m_reverseStack s) = take K (v # m_reverseStack s)"
    by (simp add: butlast_conv_take)
  then show ?thesis using True by (simp add: saveToStack_def Let_def)
next
  case False
  then show ?thesis using assms by (simp add: saveToStack_def Let_def)
qed

lemma save_stack_length:
  assumes "length (m_reverseStack s) \<le> K"
  shows "length (m_reverseStack (save byteIndexed K p s)) \<le> K"
  by (simp add: save_stack saveToStack_bounded [OF assms])

lemma saves_stack_length:
  "length (m_reverseStack s) \<le> K \<Longrightarrow>
   length (m_reverseStack (fold (save byteIndexed K) ps s)) \<le> K"
  by (induction ps arbitrary: s) (simp_all add: save_stack_length)

text \<open>
  No operation of the memory makes the stack longer than a capacity it was within: a stack
  that starts empty stays within a capacity that stays fixed.
\<close>

lemma stack_bound_preserved:
  assumes "length (m_reverseStack s) \<le> K"
  shows "length (m_reverseStack (save byteIndexed K p s)) \<le> K"
    and "length (m_reverseStack (reverse byteIndexed s)) \<le> K"
    and "length (m_reverseStack (reset s)) \<le> K"
    and "length (m_reverseStack (forceValue byteIndexed a v s)) \<le> K"
  using assms
  by (auto simp add: save_stack_length reverse_def reset_def forceValue_def Let_def)

lemma reverse_front:
  assumes "m_reverseStack u = ev # rest"
  shows "reverse byteIndexed u =
           u\<lparr>m_memory := (if writeEnable ev
                           then write' byteIndexed (m_memory u) (ev_addr ev) (ev_data ev)
                                  (sint (ev_width ev))
                           else m_memory u),
             m_reverseStack := rest\<rparr>"
  using assms by (simp add: reverse_def Let_def)

lemma write_undo:
  assumes "wr_en p \<longrightarrow> wr_width p \<le> 4"
  shows "(if wr_en p
          then write' byteIndexed (m_memory (save byteIndexed K p s)) (addr p)
                 (read byteIndexed (m_memory s) (addr p)) (sint (wr_width p))
          else m_memory (save byteIndexed K p s)) = m_memory s"
proof (cases "wr_en p")
  case False
  then show ?thesis by (simp add: save_memory)
next
  case True
  then have "nat (sint (wr_width p)) \<le> 4" using assms by (simp add: small_width)
  then show ?thesis using True
    by (simp add: save_memory write'_def read_def writeMem_def writeBytes_restore)
qed

text \<open>
  As many \<open>reverse\<close> calls as edges, none of the records dropped in between: the address
  space is back, and what is left of the stack is what the window of \<open>K\<close> still holds of the
  records that were there before.
\<close>

lemma saves_then_reverses:
  assumes "length ps \<le> K"
      and "length (m_reverseStack s) \<le> K"
      and "\<forall>q \<in> set ps. wr_en q \<longrightarrow> wr_width q \<le> 4"
  shows "m_memory ((reverse byteIndexed ^^ length ps) (fold (save byteIndexed K) ps s)) = m_memory s
       \<and> m_reverseStack ((reverse byteIndexed ^^ length ps) (fold (save byteIndexed K) ps s))
           = take (K - length ps) (m_reverseStack s)"
  using assms
proof (induction ps arbitrary: s)
  case Nil
  then show ?case by simp
next
  case (Cons q qs)
  let ?ev = "\<lparr>writeEnable = wr_en q, ev_addr = addr q,
        ev_data = read byteIndexed (m_memory s) (addr q), ev_width = wr_width q\<rparr>"
  let ?s' = "save byteIndexed K q s"
  let ?u = "(reverse byteIndexed ^^ length qs) (fold (save byteIndexed K) qs ?s')"
  have len: "length qs < K" using Cons.prems(1) by simp
  have bound: "length (m_reverseStack ?s') \<le> K"
    using Cons.prems(2) by (rule save_stack_length)
  have widths: "\<forall>q \<in> set qs. wr_en q \<longrightarrow> wr_width q \<le> 4" using Cons.prems(3) by simp
  have w: "wr_en q \<longrightarrow> wr_width q \<le> 4" using Cons.prems(3) by simp
  from len have "length qs \<le> K" by simp
  from Cons.IH [OF this bound widths]
  have mem: "m_memory ?u = m_memory ?s'"
    and st: "m_reverseStack ?u = take (K - length qs) (m_reverseStack ?s')" by simp_all
  have "m_reverseStack ?s' = take K (?ev # m_reverseStack s)"
    by (simp only: save_stack saveToStack_bounded [OF Cons.prems(2)])
  then have "m_reverseStack ?u = take (K - length qs) (?ev # m_reverseStack s)"
    using st by (simp add: min_def)
  moreover have "K - length qs = Suc (K - length (q # qs))" using len by simp
  ultimately have front: "m_reverseStack ?u = ?ev # take (K - length (q # qs)) (m_reverseStack s)"
    by simp
  have "reverse byteIndexed ?u =
          ?u\<lparr>m_memory := m_memory s, m_reverseStack := take (K - length (q # qs)) (m_reverseStack s)\<rparr>"
    using write_undo [OF w, of byteIndexed K s]
    by (simp add: reverse_front [OF front] mem split: if_splits)
  moreover have "(reverse byteIndexed ^^ length (q # qs)) (fold (save byteIndexed K) (q # qs) s)
          = reverse byteIndexed ?u" by simp
  ultimately show ?case by simp
qed


text \<open>
  C3 (amended): let the capacity be \<open>K\<close> throughout and the stack hold at most \<open>K\<close> records, as
  it does from construction on under a fixed capacity. After the \<open>K + 1\<close> edges \<open>p # ps\<close>,
  of which the last \<open>K\<close> write at most four bytes each when they write, \<open>K\<close> calls of
  \<open>reverse\<close> bring the address space back to what it was after the first edge and empty the
  stack, a further \<open>reverse\<close> changes nothing, and after every one of the edges the stack
  holds at most \<open>K\<close> records.
\<close>

theorem capacity_window:
  assumes "length (m_reverseStack s) \<le> K"
      and "length ps = K"
      and "\<forall>q \<in> set ps. wr_en q \<longrightarrow> wr_width q \<le> 4"
  shows "m_memory ((reverse byteIndexed ^^ K) (fold (save byteIndexed K) (p # ps) s))
           = m_memory (save byteIndexed K p s)
       \<and> m_reverseStack ((reverse byteIndexed ^^ K) (fold (save byteIndexed K) (p # ps) s)) = []
       \<and> reverse byteIndexed ((reverse byteIndexed ^^ K) (fold (save byteIndexed K) (p # ps) s))
           = (reverse byteIndexed ^^ K) (fold (save byteIndexed K) (p # ps) s)
       \<and> (\<forall>n. length (m_reverseStack (fold (save byteIndexed K) (take n (p # ps)) s)) \<le> K)"
proof -
  let ?s' = "save byteIndexed K p s"
  let ?u = "(reverse byteIndexed ^^ K) (fold (save byteIndexed K) (p # ps) s)"
  have bound: "length (m_reverseStack ?s') \<le> K"
    using assms(1) by (rule save_stack_length)
  have len: "length ps \<le> K" using assms(2) by simp
  from saves_then_reverses [OF len bound assms(3), of byteIndexed]
  have mem: "m_memory ?u = m_memory ?s'" and st: "m_reverseStack ?u = []"
    using assms(2) by simp_all
  from st have "reverse byteIndexed ?u = ?u" by (simp add: reverse_def)
  moreover have "\<forall>n. length (m_reverseStack (fold (save byteIndexed K) (take n (p # ps)) s)) \<le> K"
    using assms(1) by (simp add: saves_stack_length)
  ultimately show ?thesis using mem st by simp
qed


text \<open>
  Capacity 1 and two edges writing 0x11 and then 0x22 at 0x1000: one \<open>reverse\<close> gives 0x11
  back and leaves no record.
\<close>

theorem capacity_window_witness:
  "length ([] :: MemoryEviction list) \<le> 1
   \<and> length [\<lparr>wr_en = True, addr = 0x1000 :: 32 word, data_in = 0x22 :: 32 word, wr_width = 1 :: 32 word\<rparr>] = 1
   \<and> (1 :: 32 word) \<le> 4
   \<and> read True (m_memory ((reverse True ^^ 1) (fold (save True 1)
         [\<lparr>wr_en = True, addr = 0x1000, data_in = 0x11, wr_width = 1\<rparr>,
          \<lparr>wr_en = True, addr = 0x1000, data_in = 0x22, wr_width = 1\<rparr>]
         \<lparr>m_memory = zeroed, m_reverseStack = []\<rparr>))) 0x1000 = 0x11
   \<and> m_reverseStack ((reverse True ^^ 1) (fold (save True 1)
         [\<lparr>wr_en = True, addr = 0x1000, data_in = 0x11, wr_width = 1\<rparr>,
          \<lparr>wr_en = True, addr = 0x1000, data_in = 0x22, wr_width = 1\<rparr>]
         \<lparr>m_memory = zeroed, m_reverseStack = []\<rparr>)) = []"
proof -
  let ?p = "\<lparr>wr_en = True, addr = 0x1000 :: 32 word, data_in = 0x11 :: 32 word, wr_width = 1 :: 32 word\<rparr>"
  let ?q = "\<lparr>wr_en = True, addr = 0x1000 :: 32 word, data_in = 0x22 :: 32 word, wr_width = 1 :: 32 word\<rparr>"
  let ?s = "\<lparr>m_memory = zeroed, m_reverseStack = []\<rparr>"
  have a: "length (m_reverseStack ?s) \<le> 1" by simp
  have b: "length [?q] = 1" by simp
  have c: "\<forall>q \<in> set [?q]. wr_en q \<longrightarrow> wr_width q \<le> 4" by simp
  note w = capacity_window [OF a b c, of True ?p]
  have "read True (m_memory (save True 1 ?p ?s)) 0x1000 = 0x11"
    by (simp add: save_def saveToStack_def write'_def writeMem_def read_def readMem_def
        zeroed_def Let_def)
  then show ?thesis using w by simp
qed

text \<open>
  C3 as stated fails when an edge inside the window writes more than four bytes: capacity 1,
  a first edge that does not write and a second that writes five bytes at address 0, over a
  memory with 0xAA at address 4. After the first edge address 4 reads 0xAA; after both edges
  and one \<open>reverse\<close> it reads 0.
\<close>

theorem wide_write_in_window_not_restored:
  "length ([] :: MemoryEviction list) \<le> 1
   \<and> read True (m_memory (save True 1
         \<lparr>wr_en = False, addr = 0, data_in = 0, wr_width = 0\<rparr>
         \<lparr>m_memory = zeroed(4 := 0xAA), m_reverseStack = []\<rparr>)) 4 = 0xAA
   \<and> read True (m_memory ((reverse True ^^ 1) (fold (save True 1)
         [\<lparr>wr_en = False, addr = 0, data_in = 0, wr_width = 0\<rparr>,
          \<lparr>wr_en = True, addr = 0, data_in = 0x11, wr_width = 5\<rparr>]
         \<lparr>m_memory = zeroed(4 := 0xAA), m_reverseStack = []\<rparr>))) 4 = 0"
  by (simp add: save_def reverse_def saveToStack_def write'_def writeMem_def read_def readMem_def
        zeroed_def Let_def writeBytes_numeral)

section \<open>Resetting a memory\<close>

text \<open>
  C7: \<open>reset\<close> empties the reverse stack whatever it held, and a \<open>reverse\<close> right after it
  changes neither the memory contents nor the (empty) stack.
\<close>

theorem reset_clears_history:
  "m_reverseStack (reset s) = []
   \<and> reverse byteIndexed (reset s) = reset s
   \<and> m_memory (reverse byteIndexed (reset s)) = m_memory s"
  by (simp add: reset_def reverse_def)

section \<open>Undoing an edge\<close>

text \<open>
  C6: with an empty stack \<open>reverse\<close> leaves the state as it is (and reports nothing, having
  no error to report). Otherwise it removes the front record, and writes the record's data
  at the record's address with the record's width when the record's \<open>writeEnable\<close> is set;
  when it is not set, the address space stays as it is.
\<close>

theorem reverse_cases:
  "(m_reverseStack s = [] \<longrightarrow> reverse byteIndexed s = s)
   \<and> (m_reverseStack s = ev # rest \<and> writeEnable ev \<longrightarrow>
        reverse byteIndexed s =
          s\<lparr>m_memory := write' byteIndexed (m_memory s) (ev_addr ev) (ev_data ev)
                           (sint (ev_width ev)),
            m_reverseStack := rest\<rparr>)
   \<and> (m_reverseStack s = ev # rest \<and> \<not> writeEnable ev \<longrightarrow>
        reverse byteIndexed s = s\<lparr>m_reverseStack := rest\<rparr>)"
  by (simp add: reverse_def Let_def)

text \<open>
  An empty stack, a stack with one write record and a stack with one record of an edge that
  did not write.
\<close>

theorem reverse_cases_witness:
  "reverse True \<lparr>m_memory = zeroed, m_reverseStack = []\<rparr>
     = \<lparr>m_memory = zeroed, m_reverseStack = []\<rparr>
   \<and> reverse True \<lparr>m_memory = zeroed,
         m_reverseStack = [\<lparr>writeEnable = True, ev_addr = 8, ev_data = 7, ev_width = 1\<rparr>]\<rparr>
     = \<lparr>m_memory = write' True zeroed 8 7 1, m_reverseStack = []\<rparr>
   \<and> reverse True \<lparr>m_memory = zeroed,
         m_reverseStack = [\<lparr>writeEnable = False, ev_addr = 8, ev_data = 7, ev_width = 1\<rparr>]\<rparr>
     = \<lparr>m_memory = zeroed, m_reverseStack = []\<rparr>"
  using reverse_cases [where s = "\<lparr>m_memory = zeroed, m_reverseStack = []\<rparr>"
        and byteIndexed = True]
    reverse_cases [where s = "\<lparr>m_memory = zeroed,
           m_reverseStack = [\<lparr>writeEnable = True, ev_addr = 8, ev_data = 7, ev_width = 1\<rparr>]\<rparr>"
        and ev = "\<lparr>writeEnable = True, ev_addr = 8, ev_data = 7, ev_width = 1\<rparr>"
        and rest = "[]" and byteIndexed = True]
    reverse_cases [where s = "\<lparr>m_memory = zeroed,
           m_reverseStack = [\<lparr>writeEnable = False, ev_addr = 8, ev_data = 7, ev_width = 1\<rparr>]\<rparr>"
        and ev = "\<lparr>writeEnable = False, ev_addr = 8, ev_data = 7, ev_width = 1\<rparr>"
        and rest = "[]" and byteIndexed = True]
  by simp

section \<open>Forcing a value\<close>

text \<open>
  C8: \<open>forceValue\<close> writes the four bytes of the value at the address and leaves the deque
  of records as it is. A \<open>reverse\<close> after it removes the record it would have removed
  without the \<open>forceValue\<close>, and applies that record to the address space as forced.
\<close>

theorem forceValue_keeps_history:
  "m_reverseStack (forceValue byteIndexed address v s) = m_reverseStack s
   \<and> m_memory (forceValue byteIndexed address v s)
       = write' byteIndexed (m_memory s) address v 4
   \<and> m_reverseStack (reverse byteIndexed (forceValue byteIndexed address v s))
       = m_reverseStack (reverse byteIndexed s)
   \<and> m_memory (reverse byteIndexed (forceValue byteIndexed address v s))
       = (case m_reverseStack s of
            [] \<Rightarrow> write' byteIndexed (m_memory s) address v 4
          | ev # rest \<Rightarrow>
              if writeEnable ev
              then write' byteIndexed (write' byteIndexed (m_memory s) address v 4)
                     (ev_addr ev) (ev_data ev) (sint (ev_width ev))
              else write' byteIndexed (m_memory s) address v 4)"
  by (simp add: forceValue_def reverse_def sizeof_VSRTL_VT_U_def Let_def split: list.split)

section \<open>Changing the capacity\<close>

text \<open>
  The deque is resized to the length it has, whatever the new capacity is.
\<close>

lemma deque_resize_same: "deque_resize (length xs) xs = xs"
  by (simp add: deque_resize_def)

lemma reverseStackSizeChanged_same: "reverseStackSizeChanged K s = s"
  by (simp add: reverseStackSizeChanged_def deque_resize_same)

text \<open>
  C4: three edges under a capacity of 3 leave three records. When the capacity then becomes 1,
  \<open>reverseStackSizeChanged\<close> still leaves three records: nothing is trimmed.
\<close>

theorem shrink_keeps_all_records:
  "length (m_reverseStack (fold (save True 3)
       [\<lparr>wr_en = True, addr = 0, data_in = 1, wr_width = 4\<rparr>,
        \<lparr>wr_en = True, addr = 4, data_in = 2, wr_width = 4\<rparr>,
        \<lparr>wr_en = True, addr = 8, data_in = 3, wr_width = 4\<rparr>]
       \<lparr>m_memory = zeroed, m_reverseStack = []\<rparr>)) = 3
   \<and> length (m_reverseStack (reverseStackSizeChanged 1 (fold (save True 3)
       [\<lparr>wr_en = True, addr = 0, data_in = 1, wr_width = 4\<rparr>,
        \<lparr>wr_en = True, addr = 4, data_in = 2, wr_width = 4\<rparr>,
        \<lparr>wr_en = True, addr = 8, data_in = 3, wr_width = 4\<rparr>]
       \<lparr>m_memory = zeroed, m_reverseStack = []\<rparr>))) = 3"
  by (simp add: reverseStackSizeChanged_def deque_resize_def save_def saveToStack_def Let_def)

section \<open>Connecting an input signal\<close>

text \<open>An input signal as constructed accepts a connection, which replaces the null pointer.\<close>

lemma connect_fresh:
  "connect_OutputSignal this output (h\<lparr>inputs := (inputs h)(this := new_InputSignal parent name)\<rparr>)
    = (Inr (), h\<lparr>inputs := (inputs h)(this := (new_InputSignal parent name)\<lparr>m_signal := OutputRef (Some output)\<rparr>)\<rparr>)"
  by (simp add: connect_OutputSignal_def verifyIsNotConnected_def new_InputSignal_def)

text \<open>
  The check made before a connection fails on an input signal that refers to an output signal
  or to an input signal, with a message that starts with the name of the signal and the name
  of its component.
\<close>

lemma verifyIsNotConnected_connected:
  assumes "(\<exists>p. m_signal (inputs h this) = OutputRef (Some p))
         \<or> (\<exists>j. m_signal (inputs h this) = InputRef j)"
  shows "\<exists>rest. verifyIsNotConnected h this =
           Inl (AssertionFailed
                 (''ERROR! trying to connect an input which has already been connected.'' @ [nl]
                  @ ''Signal: '' @ [tab, tab, quote] @ in_name (inputs h this)
                  @ [quote, nl] @ ''Of component: '' @ [tab, quote]
                  @ componentName h (in_parent (inputs h this)) @ rest))"
  using assms
  by (auto simp add: verifyIsNotConnected_def getConnectedParent_def Let_def)

text \<open>
  C2: on an input signal that already refers to an output signal or to another input signal,
  both overloads of \<open>connect\<close> end in the failed assertion, whose message names the signal
  and the component that owns it, and the heap is the heap as it was: the reference stored in
  the input signal has not been overwritten.
\<close>

theorem connect_again_fails:
  assumes "(\<exists>p. m_signal (inputs h this) = OutputRef (Some p))
         \<or> (\<exists>j. m_signal (inputs h this) = InputRef j)"
  shows "(\<exists>rest. fst (connect_OutputSignal this output h) =
             Inl (AssertionFailed
                 (''ERROR! trying to connect an input which has already been connected.'' @ [nl]
                  @ ''Signal: '' @ [tab, tab, quote] @ in_name (inputs h this)
                  @ [quote, nl] @ ''Of component: '' @ [tab, quote]
                  @ componentName h (in_parent (inputs h this)) @ rest)))
       \<and> fst (connect_InputSignal this otherInput h) = fst (connect_OutputSignal this output h)
       \<and> snd (connect_OutputSignal this output h) = h
       \<and> snd (connect_InputSignal this otherInput h) = h"
proof -
  from verifyIsNotConnected_connected [OF assms] obtain rest where
    "verifyIsNotConnected h this =
           Inl (AssertionFailed
                 (''ERROR! trying to connect an input which has already been connected.'' @ [nl]
                  @ ''Signal: '' @ [tab, tab, quote] @ in_name (inputs h this)
                  @ [quote, nl] @ ''Of component: '' @ [tab, quote]
                  @ componentName h (in_parent (inputs h this)) @ rest))" by blast
  then show ?thesis
    by (simp add: connect_OutputSignal_def connect_InputSignal_def)
qed

text \<open>
  Input signal 0 of the design refers to output signal 0. Connecting it to input signal 1
  fails with the full message, and it still refers to output signal 0.
\<close>

theorem connect_again_fails_witness:
  "m_signal (inputs design 0) = OutputRef (Some 0)
   \<and> fst (connect_InputSignal 0 1 design) =
       Inl (AssertionFailed
             (''ERROR! trying to connect an input which has already been connected.'' @ [nl]
              @ ''Signal: '' @ [tab, tab, quote] @ ''in''
              @ [quote, nl] @ ''Of component: '' @ [tab, quote] @ ''reg''
              @ [quote, nl] @ ''Is already connected to '' @ [nl]
              @ ''Signal: '' @ [tab, tab, quote] @ ''out''
              @ [quote, nl] @ ''Of component: '' @ [tab, quote] @ ''alu'' @ [quote, nl]))
   \<and> snd (connect_InputSignal 0 1 design) = design
   \<and> m_signal (inputs (snd (connect_InputSignal 0 1 design)) 0) = OutputRef (Some 0)"
proof -
  have c: "m_signal (inputs design 0) = OutputRef (Some 0)" by (simp add: design_def)
  then have a: "(\<exists>p. m_signal (inputs design 0) = OutputRef (Some p))
         \<or> (\<exists>j. m_signal (inputs design 0) = InputRef j)" by blast
  have s: "snd (connect_InputSignal 0 1 design) = design"
    using connect_again_fails [OF a] by blast
  have "verifyIsNotConnected design 0 =
       Inl (AssertionFailed
             (''ERROR! trying to connect an input which has already been connected.'' @ [nl]
              @ ''Signal: '' @ [tab, tab, quote] @ ''in''
              @ [quote, nl] @ ''Of component: '' @ [tab, quote] @ ''reg''
              @ [quote, nl] @ ''Is already connected to '' @ [nl]
              @ ''Signal: '' @ [tab, tab, quote] @ ''out''
              @ [quote, nl] @ ''Of component: '' @ [tab, quote] @ ''alu'' @ [quote, nl]))"
    by (simp add: verifyIsNotConnected_def getConnectedParent_def Let_def design_def)
  then have "fst (connect_InputSignal 0 1 design) =
       Inl (AssertionFailed
             (''ERROR! trying to connect an input which has already been connected.'' @ [nl]
              @ ''Signal: '' @ [tab, tab, quote] @ ''in''
              @ [quote, nl] @ ''Of component: '' @ [tab, quote] @ ''reg''
              @ [quote, nl] @ ''Is already connected to '' @ [nl]
              @ ''Signal: '' @ [tab, tab, quote] @ ''out''
              @ [quote, nl] @ ''Of component: '' @ [tab, quote] @ ''alu'' @ [quote, nl]))"
    by (simp add: connect_InputSignal_def)
  then show ?thesis using c s by simp
qed

section \<open>Resolving an input signal\<close>

lemma chain_isConnected: "chain h this js p \<Longrightarrow> isConnected h this = Some True"
  by (induction js arbitrary: this) (simp_all add: isConnected.simps)

lemma chain_value:
  "chain h this js p \<Longrightarrow>
   value' cast h this = Some (Inr (OutputSignal_value cast (outputs h p)))"
  by (induction js arbitrary: this) (simp_all add: value'.simps)

lemma chain_getConnectedParent:
  "chain h this js p \<Longrightarrow>
   getConnectedParent h this =
     Inr (case js of [] \<Rightarrow> out_parent (outputs h p) | j # _ \<Rightarrow> in_parent (inputs h j))"
  by (cases js) (simp_all add: getConnectedParent_def)

text \<open>
  C5 (amended): for an input signal connected through any chain of pass-through input signals
  that ends at an output signal, \<open>isConnected\<close> returns true and \<open>value'\<close> returns the
  value of that output signal, both following the whole chain. \<open>getConnectedParent\<close> looks
  one step only: it returns the parent of the signal the input refers to directly, the first
  pass-through input of the chain, and the parent of the output signal when there is none.
\<close>

theorem chain_resolution:
  assumes "chain h this js p"
  shows "isConnected h this = Some True
       \<and> value' cast h this = Some (Inr (OutputSignal_value cast (outputs h p)))
       \<and> getConnectedParent h this =
           Inr (case js of [] \<Rightarrow> out_parent (outputs h p) | j # _ \<Rightarrow> in_parent (inputs h j))"
  using assms by (simp add: chain_isConnected chain_value chain_getConnectedParent)

text \<open>
  Input signal 1 of the design passes input signal 0 through, which refers to output signal 0:
  it is connected, its value is bit 0 of the output, and its connected parent is component 2,
  the owner of input signal 0.
\<close>

theorem chain_resolution_witness:
  "chain design 1 [0] 0
   \<and> isConnected design 1 = Some True
   \<and> value' hd design 1 = Some (Inr True)
   \<and> getConnectedParent design 1 = Inr 2"
proof -
  have c: "chain design 1 [0] 0" by (simp add: design_def)
  have "OutputSignal_value hd (outputs design 0) = True"
    by (simp add: OutputSignal_value_def design_def)
  moreover have "in_parent (inputs design 0) = 2" by (simp add: design_def)
  ultimately show ?thesis using c chain_resolution [OF c, of hd] by simp
qed

text \<open>
  C5 as stated fails for \<open>getConnectedParent\<close>: the output signal at the end of the chain of
  input signal 1 belongs to component 1, and the call returns component 2.
\<close>

theorem pass_through_parent_not_terminal:
  "chain design 1 [0] 0
   \<and> getConnectedParent design 1 = Inr 2
   \<and> out_parent (outputs design 0) = 1
   \<and> getConnectedParent design 1 \<noteq> Inr (out_parent (outputs design 0))"
  by (simp add: design_def getConnectedParent_def)

section \<open>The value of an input signal that is not connected\<close>

text \<open>
  Whenever \<open>isConnected\<close> returns true, \<open>value'\<close> returns the value of an output signal:
  by induction on the computation of \<open>isConnected\<close>, whose path \<open>value'\<close> follows.
\<close>

lemma isConnected_value:
  assumes "isConnected h this = Some b"
  shows "b \<longrightarrow> (\<exists>p. value' cast h this = Some (Inr (OutputSignal_value cast (outputs h p))))"
proof (rule isConnected.raw_induct
    [where P = "\<lambda>h this b. b \<longrightarrow>
        (\<exists>p. value' cast h this = Some (Inr (OutputSignal_value cast (outputs h p))))",
     OF _ assms])
  fix isC :: "Heap \<Rightarrow> InputSignal_ptr \<Rightarrow> bool option" and h this b
  assume IH: "\<And>h' j y. isC h' j = Some y \<Longrightarrow>
        y \<longrightarrow> (\<exists>p. value' cast h' j = Some (Inr (OutputSignal_value cast (outputs h' p))))"
    and step: "(case m_signal (inputs h this) of
        OutputRef arg \<Rightarrow> Some (arg \<noteq> None)
      | InputRef arg \<Rightarrow> isC h arg) = Some b"
  show "b \<longrightarrow> (\<exists>p. value' cast h this = Some (Inr (OutputSignal_value cast (outputs h p))))"
  proof (cases "m_signal (inputs h this)")
    case (OutputRef arg)
    with step show ?thesis by (subst value'.simps) auto
  next
    case (InputRef j)
    with step have "isC h j = Some b" by simp
    from IH [OF this] show ?thesis using InputRef by (subst value'.simps) simp
  qed
qed

text \<open>
  C10: on an input signal as constructed, \<open>value'\<close> dereferences the null pointer (and
  \<open>isConnected\<close> returns false). When \<open>isConnected\<close> returns true, \<open>value'\<close> returns, and
  what it returns is the value of an output signal, not the null dereference.
\<close>

theorem unconnected_value_null:
  "value' cast (h\<lparr>inputs := (inputs h)(this := new_InputSignal parent name)\<rparr>) this
     = Some (Inl NullDereference)
   \<and> isConnected (h\<lparr>inputs := (inputs h)(this := new_InputSignal parent name)\<rparr>) this
     = Some False
   \<and> (isConnected h this = Some True \<longrightarrow>
        (\<exists>p. value' cast h this = Some (Inr (OutputSignal_value cast (outputs h p)))))"
proof -
  have "value' cast (h\<lparr>inputs := (inputs h)(this := new_InputSignal parent name)\<rparr>) this
     = Some (Inl NullDereference)"
    by (subst value'.simps) (simp add: new_InputSignal_def)
  moreover have "isConnected (h\<lparr>inputs := (inputs h)(this := new_InputSignal parent name)\<rparr>) this
     = Some False"
    by (subst isConnected.simps) (simp add: new_InputSignal_def)
  ultimately show ?thesis using isConnected_value [of h this True cast] by blast
qed

text \<open>
  In the design, input signal 1 is connected and has the value of the output signal; input
  signal 2 is as constructed and its value is the null dereference.
\<close>

theorem unconnected_value_null_witness:
  "isConnected design 1 = Some True
   \<and> value' hd design 1 = Some (Inr True)
   \<and> value' hd design 2 = Some (Inl NullDereference)"
proof -
  have c: "isConnected design 1 = Some True"
    by (simp add: isConnected.simps design_def)
  from unconnected_value_null [of hd design 1] c
  obtain p where "value' hd design 1 = Some (Inr (OutputSignal_value hd (outputs design p)))"
    by blast
  moreover have "OutputSignal_value hd (outputs design p) = True"
    by (simp add: OutputSignal_value_def design_def)
  moreover have "value' hd design 2 = Some (Inl NullDereference)"
    by (simp add: value'.simps design_def new_InputSignal_def)
  ultimately show ?thesis using c by simp
qed

end
